theory Spec2Isabelle
  imports Main
begin

section \<open>Python string operations used by \<open>chrome_driver.py\<close>\<close>

text \<open>
  Text is a \<open>string\<close> (a list of 8-bit characters). A Python \<open>str\<close> is represented
  by its UTF-8 code units; every operation below is the Python one on ASCII text.
\<close>

definition startswith :: "string \<Rightarrow> string \<Rightarrow> bool" where
  \<comment> \<open>\<open>s.startswith(p)\<close>\<close>
  "startswith s p = (take (length p) s = p)"

fun find_from :: "nat \<Rightarrow> string \<Rightarrow> string \<Rightarrow> int" where
  "find_from i [] sub = (if sub = [] then int i else - 1)"
| "find_from i (c # cs) sub =
     (if startswith (c # cs) sub then int i else find_from (Suc i) cs sub)"

definition py_find :: "string \<Rightarrow> string \<Rightarrow> int" where
  \<comment> \<open>\<open>s.find(sub)\<close>: the lowest index at which \<open>sub\<close> occurs in \<open>s\<close>, or -1\<close>
  "py_find s sub = find_from 0 s sub"

fun py_in :: "string \<Rightarrow> string \<Rightarrow> bool" where
  \<comment> \<open>\<open>sub in s\<close> on strings: \<open>sub\<close> occurs in \<open>s\<close> as a substring\<close>
  "py_in sub [] = (sub = [])"
| "py_in sub (c # cs) = (startswith (c # cs) sub \<or> py_in sub cs)"

fun py_split :: "char \<Rightarrow> string \<Rightarrow> string list" where
  \<comment> \<open>\<open>s.split(sep)\<close> for a separator of one character; the result is never empty\<close>
  "py_split sep [] = [[]]"
| "py_split sep (c # cs) =
     (if c = sep then [] # py_split sep cs
      else (case py_split sep cs of [] \<Rightarrow> [[c]] | p # ps \<Rightarrow> (c # p) # ps))"

definition is_space :: "char \<Rightarrow> bool" where
  \<comment> \<open>the ASCII characters for which \<open>str.isspace\<close> holds\<close>
  "is_space c = (c \<in> set [CHR 0x09, CHR 0x0A, CHR 0x0B, CHR 0x0C, CHR 0x0D,
                           CHR 0x1C, CHR 0x1D, CHR 0x1E, CHR 0x1F, CHR 0x20])"

definition py_strip :: "string \<Rightarrow> string" where
  \<comment> \<open>\<open>s.strip()\<close>\<close>
  "py_strip s = rev (dropWhile is_space (rev (dropWhile is_space s)))"

fun split_words :: "string \<Rightarrow> string \<Rightarrow> string list" where
  \<comment> \<open>\<open>s.split()\<close>: the maximal runs of non-space characters; the first argument is
      the word being read\<close>
  "split_words cur [] = (if cur = [] then [] else [cur])"
| "split_words cur (c # cs) =
     (if is_space c then (if cur = [] then split_words [] cs else cur # split_words [] cs)
      else split_words (cur @ [c]) cs)"

function py_replace :: "string \<Rightarrow> string \<Rightarrow> string \<Rightarrow> string" where
  \<comment> \<open>\<open>s.replace(old, new)\<close> for a non-empty \<open>old\<close> (both call sites pass a literal):
      occurrences are replaced from the left, without overlap\<close>
  "py_replace old new [] = []"
| "py_replace old new (c # cs) =
     (if old \<noteq> [] \<and> startswith (c # cs) old
      then new @ py_replace old new (drop (length old) (c # cs))
      else c # py_replace old new cs)"
  by pat_completeness auto
termination
  by (relation "measure (\<lambda>(old, new, s). length s)") auto

fun utf8_valid :: "nat list \<Rightarrow> bool" where
  \<comment> \<open>well-formed UTF-8 byte sequences, as the strict decoder accepts them\<close>
  "utf8_valid [] = True"
| "utf8_valid [b] = (b < 0x80)"
| "utf8_valid [b, c1] = (if b < 0x80 then c1 < 0x80 else 0xC2 \<le> b \<and> b \<le> 0xDF \<and> 0x80 \<le> c1 \<and> c1 \<le> 0xBF)"
| "utf8_valid [b, c1, c2] =
     (if b < 0x80 then utf8_valid [c1, c2]
      else if 0xC2 \<le> b \<and> b \<le> 0xDF then 0x80 \<le> c1 \<and> c1 \<le> 0xBF \<and> c2 < 0x80
      else 0xE0 \<le> b \<and> b \<le> 0xEF \<and> (if b = 0xE0 then 0xA0 else 0x80) \<le> c1
           \<and> c1 \<le> (if b = 0xED then 0x9F else 0xBF) \<and> 0x80 \<le> c2 \<and> c2 \<le> 0xBF)"
| "utf8_valid (b # c1 # c2 # c3 # bs) =
     (if b < 0x80 then utf8_valid (c1 # c2 # c3 # bs)
      else if 0xC2 \<le> b \<and> b \<le> 0xDF then 0x80 \<le> c1 \<and> c1 \<le> 0xBF \<and> utf8_valid (c2 # c3 # bs)
      else if 0xE0 \<le> b \<and> b \<le> 0xEF then
        (if b = 0xE0 then 0xA0 else 0x80) \<le> c1 \<and> c1 \<le> (if b = 0xED then 0x9F else 0xBF)
        \<and> 0x80 \<le> c2 \<and> c2 \<le> 0xBF \<and> utf8_valid (c3 # bs)
      else 0xF0 \<le> b \<and> b \<le> 0xF4 \<and> (if b = 0xF0 then 0x90 else 0x80) \<le> c1
           \<and> c1 \<le> (if b = 0xF4 then 0x8F else 0xBF) \<and> 0x80 \<le> c2 \<and> c2 \<le> 0xBF
           \<and> 0x80 \<le> c3 \<and> c3 \<le> 0xBF \<and> utf8_valid bs)"

section \<open>Errors\<close>

text \<open>Every exception the program or its libraries raise, as a value.\<close>

datatype error =
    RuntimeError string | ValueError string | TypeError | IndexError | AttributeError | KeyError
  | FileNotFoundError | PermissionError | FileExistsError | IsADirectoryError | OSError
  | CalledProcessError int | UnicodeDecodeError
  | URLError | HTTPError nat | ParseError | BadZipFile

definition is_URLError :: "error \<Rightarrow> bool" where
  \<comment> \<open>\<open>except urllib.error.URLError\<close>: the class and its subclass HTTPError\<close>
  "is_URLError e = (case e of URLError \<Rightarrow> True | HTTPError code \<Rightarrow> True | _ \<Rightarrow> False)"

definition is_Exception :: "error \<Rightarrow> bool" where
  \<comment> \<open>\<open>except Exception\<close>: every error above is a subclass of \<open>Exception\<close>\<close>
  "is_Exception e = True"

definition decode_utf8 :: "string \<Rightarrow> error + string" where
  \<comment> \<open>\<open>b.decode('utf-8')\<close>: the text keeps the bytes as its representation\<close>
  "decode_utf8 b = (if utf8_valid (map of_char b) then Inr b else Inl UnicodeDecodeError)"

definition is_version_char :: "char \<Rightarrow> bool" where
  \<comment> \<open>the character class \<open>[\d.]\<close> on ASCII text\<close>
  "is_version_char c = (c = CHR ''.'' \<or> (48 \<le> (of_char c :: nat) \<and> (of_char c :: nat) \<le> 57))"

fun re_match_version :: "string \<Rightarrow> string option" where
  \<comment> \<open>group 1 of \<open>re.match(r'.*?([\d.]+).*?', s)\<close>, \<open>None\<close> when there is no match. The
      lazy \<open>.*?\<close> skips as few characters as possible and never a newline; the group
      is greedy; the trailing \<open>.*?\<close> matches the empty string.\<close>
  "re_match_version [] = None"
| "re_match_version (c # cs) =
     (if is_version_char c then Some (takeWhile is_version_char (c # cs))
      else if c = CHR 0x0A then None
      else re_match_version cs)"


section \<open>The host and the mutable state\<close>

text \<open>
  What the program reads from its surroundings and never changes is a \<open>host\<close>; what it
  changes (the process environment, the file system) and the log of the network
  requests it has made is a \<open>state\<close>. Paths are looked up in the file system as they
  are written. \<open>os.access\<close> and the permission checks read the owner's bits of a file's
  mode: the process owns the files it finds and is not the superuser.
\<close>

datatype node = Dir | File (mode: nat) (content: string)

datatype proc_result = ExecFailed | Exited int string

datatype payload = Xml "string option list" | Zip "(string \<times> string) list" | Opaque

datatype reply = Unreachable | Http nat payload

record host =
  sys_platform :: string  \<comment> \<open>\<open>sys.platform\<close>\<close>
  sys_maxsize :: int  \<comment> \<open>\<open>sys.maxsize\<close>\<close>
  getcwd :: string  \<comment> \<open>\<open>os.getcwd()\<close>\<close>
  module_dir :: string  \<comment> \<open>\<open>os.path.abspath(os.path.dirname(__file__))\<close>\<close>
  path_join :: "string \<Rightarrow> string \<Rightarrow> string"  \<comment> \<open>\<open>os.path.join\<close>\<close>
  path_dirname :: "string \<Rightarrow> string"  \<comment> \<open>\<open>os.path.dirname\<close>\<close>
  path_abspath :: "string \<Rightarrow> string"  \<comment> \<open>\<open>os.path.abspath\<close>\<close>
  which :: "string \<Rightarrow> string option"  \<comment> \<open>\<open>shutil.which\<close>, the command lookup\<close>
  run :: "string \<Rightarrow> string list \<Rightarrow> proc_result"
    \<comment> \<open>what executing a file of the given content does on the given arguments:
        exit status and standard output\<close>
  net :: "string \<Rightarrow> reply"
    \<comment> \<open>the final reply to a GET of a URL; its body as the parsers read it: the texts
        of the \<open>Key\<close> elements of an XML document in document order, the members of a
        ZIP archive, or neither\<close>
  new_file_mode :: nat  \<comment> \<open>the mode of a newly created file (\<open>0o666\<close> less the umask)\<close>

record state =
  environ :: "string \<rightharpoonup> string"  \<comment> \<open>\<open>os.environ\<close>\<close>
  fs :: "string \<rightharpoonup> node"
  requests :: "string list"  \<comment> \<open>the URLs requested so far, oldest first\<close>

definition isdir :: "state \<Rightarrow> string \<Rightarrow> bool" where
  "isdir s p = (fs s p = Some Dir)"

definition isfile :: "state \<Rightarrow> string \<Rightarrow> bool" where
  "isfile s p = (case fs s p of Some (File m c) \<Rightarrow> True | _ \<Rightarrow> False)"

definition owner_x :: "nat \<Rightarrow> bool" where
  \<comment> \<open>the owner's execute bit, \<open>0o100\<close>\<close>
  "owner_x m = bit m 6"

definition owner_w :: "nat \<Rightarrow> bool" where
  \<comment> \<open>the owner's write bit, \<open>0o200\<close>\<close>
  "owner_w m = bit m 7"

definition access_x :: "state \<Rightarrow> string \<Rightarrow> bool" where
  \<comment> \<open>\<open>os.access(p, os.X_OK)\<close>\<close>
  "access_x s p = (case fs s p of None \<Rightarrow> False | Some Dir \<Rightarrow> True | Some (File m c) \<Rightarrow> owner_x m)"

definition chmod :: "state \<Rightarrow> string \<Rightarrow> nat \<Rightarrow> error + state" where
  "chmod s p m =
     (case fs s p of
        None \<Rightarrow> Inl FileNotFoundError
      | Some Dir \<Rightarrow> Inr s
      | Some (File m0 c) \<Rightarrow> Inr (s\<lparr>fs := (fs s)(p \<mapsto> File m c)\<rparr>))"

definition makedirs :: "state \<Rightarrow> string \<Rightarrow> error + state" where
  "makedirs s p =
     (case fs s p of
        None \<Rightarrow> Inr (s\<lparr>fs := (fs s)(p \<mapsto> Dir)\<rparr>)
      | Some n \<Rightarrow> Inl FileExistsError)"

definition zip_extract :: "host \<Rightarrow> state \<Rightarrow> (string \<times> string) list \<Rightarrow> string \<Rightarrow> string \<Rightarrow> error + state" where
  \<comment> \<open>\<open>zip_file.extract(member, directory)\<close>: the member's data is written to the file
      \<open>directory/member\<close>, which keeps its mode when it exists already\<close>
  "zip_extract h s members member directory =
     (case map_of members member of
        None \<Rightarrow> Inl KeyError
      | Some data \<Rightarrow>
          (let target = path_join h directory member in
           case fs s target of
             None \<Rightarrow> Inr (s\<lparr>fs := (fs s)(target \<mapsto> File (new_file_mode h) data)\<rparr>)
           | Some Dir \<Rightarrow> Inl IsADirectoryError
           | Some (File m c) \<Rightarrow>
               if owner_w m then Inr (s\<lparr>fs := (fs s)(target \<mapsto> File m data)\<rparr>)
               else Inl PermissionError))"

definition Popen :: "host \<Rightarrow> state \<Rightarrow> string \<Rightarrow> string list \<Rightarrow> error + int \<times> string" where
  \<comment> \<open>starting the program file at a path and waiting for it: exit status and output\<close>
  "Popen h s prog args =
     (case fs s prog of
        None \<Rightarrow> Inl FileNotFoundError
      | Some Dir \<Rightarrow> Inl PermissionError
      | Some (File m c) \<Rightarrow>
          if \<not> owner_x m then Inl PermissionError
          else (case run h c args of
                  ExecFailed \<Rightarrow> Inl OSError
                | Exited rc out \<Rightarrow> Inr (rc, out)))"

definition Popen_command :: "host \<Rightarrow> state \<Rightarrow> string \<Rightarrow> string list \<Rightarrow> error + int \<times> string" where
  \<comment> \<open>the same for a bare command name, which is looked up first\<close>
  "Popen_command h s name args =
     (case which h name of None \<Rightarrow> Inl FileNotFoundError | Some prog \<Rightarrow> Popen h s prog args)"

definition check_output :: "host \<Rightarrow> state \<Rightarrow> string \<Rightarrow> string list \<Rightarrow> error + string" where
  \<comment> \<open>\<open>subprocess.check_output\<close>: a non-zero exit status is an error\<close>
  "check_output h s prog args =
     (case Popen h s prog args of
        Inl e \<Rightarrow> Inl e
      | Inr (rc, out) \<Rightarrow> if rc \<noteq> 0 then Inl (CalledProcessError rc) else Inr out)"

definition urlopen :: "host \<Rightarrow> state \<Rightarrow> string \<Rightarrow> (error + nat \<times> payload) \<times> state" where
  \<comment> \<open>\<open>urllib.request.urlopen(url)\<close>: one request; a reply outside 2xx is an HTTPError\<close>
  "urlopen h s url =
     (let s' = s\<lparr>requests := requests s @ [url]\<rparr> in
      case net h url of
        Unreachable \<Rightarrow> (Inl URLError, s')
      | Http code body \<Rightarrow>
          if 200 \<le> code \<and> code < 300 then (Inr (code, body), s') else (Inl (HTTPError code), s'))"


section \<open>The program\<close>

definition get_chromedriver_filename :: "host \<Rightarrow> string" where
  "get_chromedriver_filename h =
     (if startswith (sys_platform h) ''win'' then ''chromedriver.exe'' else ''chromedriver'')"

definition get_variable_separator :: "host \<Rightarrow> string" where
  "get_variable_separator h = (if startswith (sys_platform h) ''win'' then '';'' else '':'')"

definition get_platform_architecture :: "host \<Rightarrow> error + string \<times> string" where
  "get_platform_architecture h =
     (if startswith (sys_platform h) ''linux'' \<and> sys_maxsize h > 2 ^ 32 then Inr (''linux'', ''64'')
      else if sys_platform h = ''darwin'' then Inr (''mac'', ''64'')
      else if startswith (sys_platform h) ''win'' then Inr (''win'', ''32'')
      else Inl (RuntimeError ''Could not determine chromedriver download URL for this platform.''))"

definition get_chromedriver_url :: "host \<Rightarrow> string \<Rightarrow> bool \<Rightarrow> error + string" where
  "get_chromedriver_url h version no_ssl =
     (let base_url = (if no_ssl then ''http://chromedriver.storage.googleapis.com/''
                      else ''https://chromedriver.storage.googleapis.com/'')
      in case get_platform_architecture h of
           Inl e \<Rightarrow> Inl e
         | Inr (platform, architecture) \<Rightarrow>
             Inr (base_url @ version @ ''/chromedriver_'' @ platform @ architecture @ ''.zip''))"

definition check_version_try :: "host \<Rightarrow> state \<Rightarrow> string \<Rightarrow> string \<Rightarrow> error + bool" where
  \<comment> \<open>the body of the \<open>try\<close> of \<open>check_version\<close> and the \<open>return False\<close> after it;
      subscripting the \<open>None\<close> of a failed match is a TypeError\<close>
  "check_version_try h s binary required_version =
     (case check_output h s binary [''-v''] of
        Inl e \<Rightarrow> Inl e
      | Inr out \<Rightarrow>
          (case decode_utf8 out of
             Inl e \<Rightarrow> Inl e
           | Inr text \<Rightarrow>
               (case re_match_version text of
                  None \<Rightarrow> Inl TypeError
                | Some version \<Rightarrow> Inr (version = required_version))))"

definition check_version :: "host \<Rightarrow> state \<Rightarrow> string \<Rightarrow> string \<Rightarrow> error + bool" where
  "check_version h s binary required_version =
     (case check_version_try h s binary required_version of
        Inl e \<Rightarrow> if is_Exception e then Inr False else Inl e
      | Inr b \<Rightarrow> Inr b)"

fun first_on_path :: "host \<Rightarrow> string list \<Rightarrow> error + string" where
  \<comment> \<open>the loop of \<open>get_linux_executable_path\<close>\<close>
  "first_on_path h [] = Inl (ValueError ''No chrome executable found on PATH'')"
| "first_on_path h (executable # rest) =
     (case which h executable of Some path \<Rightarrow> Inr path | None \<Rightarrow> first_on_path h rest)"

definition get_linux_executable_path :: "host \<Rightarrow> error + string" where
  "get_linux_executable_path h =
     first_on_path h [''google-chrome'', ''google-chrome-stable'', ''google-chrome-beta'',
                      ''google-chrome-dev'', ''chromium-browser'', ''chromium'']"

definition beacon_key :: "string \<Rightarrow> string \<Rightarrow> string" where
  \<comment> \<open>the registry key of both Windows queries; \<open>CHR 0x5C\<close> is the backslash\<close>
  "beacon_key root chrome =
     root @ [CHR 0x5C] @ ''Software'' @ [CHR 0x5C] @ ''Google'' @ [CHR 0x5C] @ chrome
          @ [CHR 0x5C] @ ''BLBeacon''"

definition last_word :: "string \<Rightarrow> error + string" where
  \<comment> \<open>\<open>s.split()[-1]\<close>\<close>
  "last_word s = (case split_words [] s of [] \<Rightarrow> Inl IndexError | w # ws \<Rightarrow> Inr (last (w # ws)))"

definition get_chrome_version :: "host \<Rightarrow> state \<Rightarrow> error + string option" where
  "get_chrome_version h s =
     (case get_platform_architecture h of
        Inl e \<Rightarrow> Inl e
      | Inr (platform, architecture) \<Rightarrow>
          if platform = ''linux'' then
            (case get_linux_executable_path h of
               Inl e \<Rightarrow> Inl e
             | Inr path \<Rightarrow>
                 (case Popen h s path [''--version''] of
                    Inl e \<Rightarrow> Inl e
                  | Inr (rc, out) \<Rightarrow>
                      (case decode_utf8 out of
                         Inl e \<Rightarrow> Inl e
                       | Inr text \<Rightarrow>
                           Inr (Some (py_strip (py_replace ''Google Chrome'' []
                                                  (py_replace ''Chromium'' [] text)))))))
          else if platform = ''mac'' then
            (case Popen h s ''/Applications/Google Chrome.app/Contents/MacOS/Google Chrome''
                    [''--version''] of
               Inl e \<Rightarrow> Inl e
             | Inr (rc, out) \<Rightarrow>
                 (case decode_utf8 out of
                    Inl e \<Rightarrow> Inl e
                  | Inr text \<Rightarrow> Inr (Some (py_strip (py_replace ''Google Chrome'' [] text)))))
          else if platform = ''win'' then
            (case Popen_command h s ''reg''
                    [''query'', beacon_key ''HKEY_CURRENT_USER'' ''Chrome'', ''/v'', ''version''] of
               Inl e \<Rightarrow> Inl e
             | Inr (rc, out) \<Rightarrow>
                 if out \<noteq> [] then
                   (case decode_utf8 out of
                      Inl e \<Rightarrow> Inl e
                    | Inr text \<Rightarrow>
                        (case last_word (py_strip text) of
                           Inl e \<Rightarrow> Inl e
                         | Inr version \<Rightarrow> Inr (Some version)))
                 else
                   (case Popen_command h s ''powershell''
                           [''-command'',
                            ''$(Get-ItemProperty -Path ''
                              @ beacon_key ''Registry::HKEY_CURRENT_USER'' ''chrome''
                              @ '').version''] of
                      Inl e \<Rightarrow> Inl e
                    | Inr (rc2, out2) \<Rightarrow>
                        (case decode_utf8 out2 of
                           Inl e \<Rightarrow> Inl e
                         | Inr text \<Rightarrow> Inr (Some (py_strip text)))))
          else Inr None)"

definition get_major_version :: "string \<Rightarrow> string" where
  "get_major_version version = hd (py_split CHR ''.'' version)"

definition index_url :: "bool \<Rightarrow> string" where
  \<comment> \<open>the two literals of \<open>get_matched_chromedriver_version\<close>\<close>
  "index_url no_ssl = (if no_ssl then ''http://chromedriver.storage.googleapis.com''
                       else ''https://chromedriver.storage.googleapis.com'')"

fun scan_keys :: "string \<Rightarrow> string option list \<Rightarrow> error + string option" where
  \<comment> \<open>the loop of \<open>get_matched_chromedriver_version\<close> over the \<open>Key\<close> elements; an
      element without text has the text \<open>None\<close>, which has no \<open>find\<close>\<close>
  "scan_keys version [] = Inr None"
| "scan_keys version (k # ks) =
     (case k of
        None \<Rightarrow> Inl AttributeError
      | Some text \<Rightarrow>
          if py_find text (get_major_version version @ ''.'') = 0
          then Inr (Some (hd (py_split CHR ''/'' text)))
          else scan_keys version ks)"

definition get_matched_chromedriver_version ::
    "host \<Rightarrow> state \<Rightarrow> string \<Rightarrow> bool \<Rightarrow> (error + string option) \<times> state" where
  "get_matched_chromedriver_version h s version no_ssl =
     (case urlopen h s (index_url no_ssl) of
        (Inl e, s1) \<Rightarrow> (Inl e, s1)
      | (Inr (code, body), s1) \<Rightarrow>
          (case body of
             Xml keys \<Rightarrow> (scan_keys version keys, s1)
           | _ \<Rightarrow> (Inl ParseError, s1)))"

definition chromedriver_directory :: "host \<Rightarrow> state \<Rightarrow> string option \<Rightarrow> string \<Rightarrow> error + string" where
  \<comment> \<open>lines 163 to 174 of \<open>download_chromedriver\<close>; \<open>None\<close> and the empty string are
      the falsy paths\<close>
  "chromedriver_directory h s path major_version =
     (if path \<noteq> None \<and> path \<noteq> Some [] then
        (if \<not> isdir s (the path) then Inl (ValueError (''Invalid path: '' @ the path))
         else Inr (path_join h (path_abspath h (the path)) major_version))
      else Inr (path_join h (module_dir h) major_version))"

definition fetch_and_unpack ::
    "host \<Rightarrow> state \<Rightarrow> string \<Rightarrow> string \<Rightarrow> string \<Rightarrow> bool \<Rightarrow> (error + unit) \<times> state" where
  \<comment> \<open>lines 179 to 191 of \<open>download_chromedriver\<close>\<close>
  "fetch_and_unpack h s chromedriver_dir chromedriver_filename chromedriver_version no_ssl =
     (case (if \<not> isdir s chromedriver_dir then makedirs s chromedriver_dir else Inr s) of
        Inl e \<Rightarrow> (Inl e, s)
      | Inr s1 \<Rightarrow>
          (case get_chromedriver_url h chromedriver_version no_ssl of
             Inl e \<Rightarrow> (Inl e, s1)
           | Inr url \<Rightarrow>
               (case (case urlopen h s1 url of
                        (Inl e, s2) \<Rightarrow> (Inl e, s2)
                      | (Inr (code, body), s2) \<Rightarrow>
                          if code \<noteq> 200 then (Inl URLError, s2) else (Inr body, s2)) of
                  (Inl e, s2) \<Rightarrow>
                    if is_URLError e
                    then (Inl (RuntimeError (''Failed to download chromedriver archive: '' @ url)), s2)
                    else (Inl e, s2)
                | (Inr body, s2) \<Rightarrow>
                    (case body of
                       Zip members \<Rightarrow>
                         (case zip_extract h s2 members chromedriver_filename chromedriver_dir of
                            Inl e \<Rightarrow> (Inl e, s2)
                          | Inr s3 \<Rightarrow> (Inr (), s3))
                     | _ \<Rightarrow> (Inl BadZipFile, s2)))))"

definition make_executable :: "state \<Rightarrow> string \<Rightarrow> error + state" where
  \<comment> \<open>lines 194 and 195 of \<open>download_chromedriver\<close>; \<open>0o744\<close> is 484\<close>
  "make_executable s chromedriver_filepath =
     (if \<not> access_x s chromedriver_filepath then chmod s chromedriver_filepath 484 else Inr s)"

definition download_chromedriver ::
    "host \<Rightarrow> state \<Rightarrow> string option \<Rightarrow> bool \<Rightarrow> (error + string option) \<times> state" where
  "download_chromedriver h s path no_ssl =
     (case get_chrome_version h s of
        Inl e \<Rightarrow> (Inl e, s)
      | Inr chrome_version \<Rightarrow>
          if chrome_version = None \<or> chrome_version = Some [] then (Inr None, s)
          else
            (case get_matched_chromedriver_version h s (the chrome_version) no_ssl of
               (Inl e, s1) \<Rightarrow> (Inl e, s1)
             | (Inr matched, s1) \<Rightarrow>
                 if matched = None \<or> matched = Some [] then (Inr None, s1)
                 else
                   (let chromedriver_version = the matched;
                        major_version = get_major_version chromedriver_version
                    in case chromedriver_directory h s1 path major_version of
                         Inl e \<Rightarrow> (Inl e, s1)
                       | Inr chromedriver_dir \<Rightarrow>
                           (let chromedriver_filename = get_chromedriver_filename h;
                                chromedriver_filepath = path_join h chromedriver_dir chromedriver_filename
                            in case (if \<not> isfile s1 chromedriver_filepath then Inr True
                                     else map_sum id Not
                                            (check_version h s1 chromedriver_filepath chromedriver_version)) of
                                 Inl e \<Rightarrow> (Inl e, s1)
                               | Inr stale \<Rightarrow>
                                   (case (if stale
                                          then fetch_and_unpack h s1 chromedriver_dir chromedriver_filename
                                                 chromedriver_version no_ssl
                                          else (Inr (), s1)) of
                                      (Inl e, s2) \<Rightarrow> (Inl e, s2)
                                    | (Inr u, s2) \<Rightarrow>
                                        (case make_executable s2 chromedriver_filepath of
                                           Inl e \<Rightarrow> (Inl e, s2)
                                         | Inr s3 \<Rightarrow> (Inr (Some chromedriver_filepath), s3)))))))"

definition environment_installer :: "host \<Rightarrow> state \<Rightarrow> string \<Rightarrow> state" where
  \<comment> \<open>lines 25 to 28 of \<open>install\<close>\<close>
  "environment_installer h s chromedriver_dir =
     (case environ s ''PATH'' of
        None \<Rightarrow> s\<lparr>environ := (environ s)(''PATH'' \<mapsto> chromedriver_dir)\<rparr>
      | Some old \<Rightarrow>
          if \<not> py_in chromedriver_dir old
          then s\<lparr>environ := (environ s)(''PATH'' \<mapsto> chromedriver_dir @ get_variable_separator h @ old)\<rparr>
          else s)"

definition install ::
    "host \<Rightarrow> state \<Rightarrow> bool \<Rightarrow> string option \<Rightarrow> bool \<Rightarrow> (error + string option) \<times> state" where
  "install h s cwd path no_ssl =
     (let path = (if cwd then Some (getcwd h) else path) in
      case download_chromedriver h s path no_ssl of
        (Inl e, s1) \<Rightarrow> (Inl e, s1)
      | (Inr chromedriver_filepath, s1) \<Rightarrow>
          if chromedriver_filepath = None \<or> chromedriver_filepath = Some [] then (Inr None, s1)
          else (Inr chromedriver_filepath,
                environment_installer h s1 (path_dirname h (the chromedriver_filepath))))"

section \<open>Notions of the specification\<close>

definition supported_platform :: "host \<Rightarrow> bool" where
  \<comment> \<open>the supported systems of the specification: 64-bit Linux, Mac, Windows\<close>
  "supported_platform h =
     ((startswith (sys_platform h) ''linux'' \<and> sys_maxsize h > 2 ^ 32)
      \<or> sys_platform h = ''darwin'' \<or> startswith (sys_platform h) ''win'')"

definition resolver_spec :: "string \<Rightarrow> string list \<Rightarrow> string option" where
  \<comment> \<open>the specification's words: the leading path segment of the first key, in index
      order, whose text starts with the major version (the leading dot segment of the
      installed version) followed by a dot; nothing when no key matches\<close>
  "resolver_spec V texts =
     map_option (takeWhile (\<lambda>c. c \<noteq> CHR ''/''))
       (List.find (\<lambda>text. startswith text (takeWhile (\<lambda>c. c \<noteq> CHR ''.'') V @ ''.'')) texts)"

definition new_requests :: "state \<Rightarrow> state \<Rightarrow> string list" where
  \<comment> \<open>the requests made between an earlier state and a later one\<close>
  "new_requests s s' = drop (length (requests s)) (requests s')"

definition pre_mode :: "host \<Rightarrow> state \<Rightarrow> string \<Rightarrow> nat" where
  \<comment> \<open>the mode a driver file has before the permission step: the mode of the file that
      was there already, or the mode of a new file\<close>
  "pre_mode h s p = (case fs s p of Some (File m c) \<Rightarrow> m | _ \<Rightarrow> new_file_mode h)"

definition owner_rwx :: "nat \<Rightarrow> bool" where
  \<comment> \<open>the owner's read, write and execute bits, \<open>0o700\<close>\<close>
  "owner_rwx m = (bit m 8 \<and> bit m 7 \<and> bit m 6)"

definition path_entries :: "host \<Rightarrow> string \<Rightarrow> string list" where
  \<comment> \<open>the directories of a search path, \<open>value.split(get_variable_separator())\<close> as
      \<open>find_binary_in_path\<close> reads it\<close>
  "path_entries h v = py_split (hd (get_variable_separator h)) v"

fun count_occurrences :: "string \<Rightarrow> string \<Rightarrow> nat" where
  \<comment> \<open>the number of positions at which a string occurs in another\<close>
  "count_occurrences sub [] = (if sub = [] then 1 else 0)"
| "count_occurrences sub (c # cs) =
     (if startswith (c # cs) sub then 1 else 0) + count_occurrences sub cs"


section \<open>Example hosts and states\<close>

definition example_index :: "string list" where
  "example_index =
     [''113.0.5672.63/chromedriver_linux64.zip'',
      ''114.0.5735.16/chromedriver_linux64.zip'',
      ''114.0.5735.16/chromedriver_mac64.zip'',
      ''114.0.5735.90/chromedriver_linux64.zip'']"

definition example_archive_url :: string where
  "example_archive_url =
     ''https://chromedriver.storage.googleapis.com/114.0.5735.16/chromedriver_linux64.zip''"

definition example_host :: host where
  \<comment> \<open>a 64-bit Linux machine with Chrome 114 on the search path\<close>
  "example_host =
     \<lparr> sys_platform = ''linux'', sys_maxsize = 2 ^ 63 - 1, getcwd = ''/home/u'',
       module_dir = ''/pkg'',
       path_join = (\<lambda>a b. a @ ''/'' @ b),
       path_dirname = (\<lambda>p. rev (tl (dropWhile (\<lambda>c. c \<noteq> CHR ''/'') (rev p)))),
       path_abspath = (\<lambda>p. p),
       which = (\<lambda>name. if name = ''google-chrome'' then Some ''/usr/bin/google-chrome'' else None),
       run = (\<lambda>c args.
                if c = ''chrome'' then Exited 0 ''Google Chrome 114.0.5735.90 ''
                else if c = ''driver'' \<and> args = [''-v'']
                then Exited 0 (''ChromeDriver 114.0.5735.90 (386bc09e8f4f)'' @ [CHR 0x0A])
                else ExecFailed),
       net = (\<lambda>url.
                if url = ''https://chromedriver.storage.googleapis.com''
                then Http 200 (Xml (map Some example_index))
                else if url = example_archive_url
                then Http 200 (Zip [(''chromedriver'', ''driver'')])
                else Http 404 Opaque),
       new_file_mode = 420 \<rparr>"

definition example_state :: state where
  "example_state =
     \<lparr> environ = [''PATH'' \<mapsto> ''/usr/bin''],
       fs = [''/usr/bin/google-chrome'' \<mapsto> File 493 ''chrome'', ''/pkg'' \<mapsto> Dir,
             ''/home/u'' \<mapsto> Dir],
       requests = [] \<rparr>"

definition installed_state :: state where
  \<comment> \<open>the same with a driver that reports version 114.0.5735.90\<close>
  "installed_state =
     example_state\<lparr>fs := (fs example_state)(''/pkg/114'' \<mapsto> Dir,
                                             ''/pkg/114/chromedriver'' \<mapsto> File 493 ''driver'')\<rparr>"

definition missing_archive_host :: host where
  \<comment> \<open>the archive endpoint answers 404\<close>
  "missing_archive_host =
     example_host\<lparr>net := (\<lambda>url. if url = ''https://chromedriver.storage.googleapis.com''
                               then Http 200 (Xml (map Some example_index))
                               else Http 404 Opaque)\<rparr>"

definition silent_host :: host where
  \<comment> \<open>the browser binary prints nothing\<close>
  "silent_host = example_host\<lparr>run := (\<lambda>c args. Exited 0 [])\<rparr>"

definition unmatched_host :: host where
  \<comment> \<open>the browser is newer than every entry of the index\<close>
  "unmatched_host = example_host\<lparr>run := (\<lambda>c args. Exited 0 ''Google Chrome 115.0.5790.102 '')\<rparr>"

definition duplicated_state :: state where
  \<comment> \<open>the search path holds the directory \<open>/d\<close> twice\<close>
  "duplicated_state = \<lparr> environ = [''PATH'' \<mapsto> ''/d:/d''], fs = Map.empty, requests = [] \<rparr>"


section \<open>Lemmas on the string operations\<close>

lemma find_from_bound: "find_from i s sub = - 1 \<or> int i \<le> find_from i s sub"
  by (induction s arbitrary: i) (auto, force)

lemma py_find_zero: "py_find s sub = 0 \<longleftrightarrow> startswith s sub"
proof (cases s)
  case Nil
  then show ?thesis by (auto simp: py_find_def startswith_def)
next
  case (Cons c cs)
  from find_from_bound [of "Suc 0" cs sub] have "find_from (Suc 0) cs sub \<noteq> 0" by auto
  with Cons show ?thesis by (simp add: py_find_def)
qed

lemma py_split_not_Nil: "py_split sep s \<noteq> []"
  by (induction s) (auto split: list.splits)

lemma hd_py_split: "hd (py_split sep s) = takeWhile (\<lambda>c. c \<noteq> sep) s"
  by (induction s) (auto split: list.splits simp: py_split_not_Nil)

lemma get_major_version_takeWhile: "get_major_version V = takeWhile (\<lambda>c. c \<noteq> CHR ''.'') V"
  by (simp add: get_major_version_def hd_py_split)

lemma startswith_Cons: "startswith s (c # p) \<longleftrightarrow> (\<exists>cs. s = c # cs \<and> startswith cs p)"
  by (cases s) (auto simp: startswith_def)

lemma startswith_append: "startswith (d @ r) d"
  by (simp add: startswith_def)

lemma linux_not_win: "startswith s ''linux'' \<Longrightarrow> \<not> startswith s ''win''"
  by (auto simp: startswith_Cons)

lemma darwin_not_prefixed: "\<not> startswith ''darwin'' ''win'' \<and> \<not> startswith ''darwin'' ''linux''"
  by (simp add: startswith_def)

lemma py_in_iff: "py_in sub s \<longleftrightarrow> (\<exists>pre post. s = pre @ sub @ post)"
proof (induction s)
  case Nil
  then show ?case by auto
next
  case (Cons c cs)
  have a: "startswith (c # cs) sub \<longleftrightarrow> (\<exists>post. c # cs = sub @ post)"
    unfolding startswith_def
    by (metis append_eq_conv_conj append_take_drop_id)
  have b: "(\<exists>pre post. c # cs = pre @ sub @ post) \<longleftrightarrow>
             (\<exists>post. c # cs = sub @ post) \<or> (\<exists>pre post. cs = pre @ sub @ post)"
  proof
    assume "\<exists>pre post. c # cs = pre @ sub @ post"
    then obtain pre post where e: "c # cs = pre @ sub @ post" by blast
    show "(\<exists>post. c # cs = sub @ post) \<or> (\<exists>pre post. cs = pre @ sub @ post)"
    proof (cases pre)
      case Nil
      with e show ?thesis by auto
    next
      case (Cons x xs)
      with e have "cs = xs @ sub @ post" by simp
      then show ?thesis by blast
    qed
  next
    assume "(\<exists>post. c # cs = sub @ post) \<or> (\<exists>pre post. cs = pre @ sub @ post)"
    then show "\<exists>pre post. c # cs = pre @ sub @ post"
    proof
      assume "\<exists>post. c # cs = sub @ post"
      then obtain post where "c # cs = [] @ sub @ post" by auto
      then show ?thesis by blast
    next
      assume "\<exists>pre post. cs = pre @ sub @ post"
      then obtain pre post where "c # cs = (c # pre) @ sub @ post" by auto
      then show ?thesis by blast
    qed
  qed
  show ?case using Cons.IH a b by simp
qed

lemma py_in_prepend: "py_in d (d @ r)"
  unfolding py_in_iff by (rule exI [of _ "[]"]) auto

lemma py_split_entry_substring: "e \<in> set (py_split sep s) \<Longrightarrow> py_in e s"
proof (induction s arbitrary: e)
  case Nil
  then show ?case by simp
next
  case (Cons c cs)
  show ?case
  proof (cases "c = sep")
    case True
    with Cons.prems have "e = [] \<or> e \<in> set (py_split sep cs)" by auto
    then show ?thesis
    proof
      assume "e = []"
      then show ?thesis by (simp add: startswith_def)
    next
      assume "e \<in> set (py_split sep cs)"
      then show ?thesis using Cons.IH by simp
    qed
  next
    case False
    obtain p ps where p: "py_split sep cs = p # ps"
      using py_split_not_Nil [of sep cs] by (cases "py_split sep cs") auto
    with False Cons.prems have "e = c # p \<or> e \<in> set ps" by auto
    then show ?thesis
    proof
      assume e: "e = c # p"
      from hd_py_split [of sep cs] p have "p = takeWhile (\<lambda>c. c \<noteq> sep) cs" by simp
      then have "c # cs = e @ dropWhile (\<lambda>c. c \<noteq> sep) cs" using e by simp
      then have "startswith (c # cs) e" by (metis startswith_append)
      then show ?thesis by simp
    next
      assume "e \<in> set ps"
      with p have "e \<in> set (py_split sep cs)" by simp
      then show ?thesis using Cons.IH by simp
    qed
  qed
qed

lemma py_split_no_sep: "sep \<notin> set d \<Longrightarrow> py_split sep d = [d]"
  by (induction d) auto

lemma py_split_prepend: "sep \<notin> set d \<Longrightarrow> py_split sep (d @ sep # r) = d # py_split sep r"
  by (induction d) auto

lemma separator_single: "get_variable_separator h = [hd (get_variable_separator h)]"
  by (simp add: get_variable_separator_def)

lemma count_prepended:
  assumes "hd (get_variable_separator h) \<notin> set d" and "\<not> py_in d old"
  shows "count_list (path_entries h (d @ get_variable_separator h @ old)) d = 1"
proof -
  let ?c = "hd (get_variable_separator h)"
  have eq: "d @ get_variable_separator h @ old = d @ ?c # old"
    using separator_single [of h] by (metis append_Cons append_Nil)
  have "py_split ?c (d @ ?c # old) = d # py_split ?c old"
    using assms(1) by (rule py_split_prepend)
  then have "path_entries h (d @ get_variable_separator h @ old) = d # py_split ?c old"
    unfolding path_entries_def eq .
  moreover have "d \<notin> set (py_split ?c old)"
    using assms(2) py_split_entry_substring by blast
  ultimately show ?thesis by (simp add: count_list_0_iff)
qed

lemma re_match_version_Some:
  "re_match_version s = Some v \<Longrightarrow>
     \<exists>pre post. s = pre @ v @ post \<and> v \<noteq> [] \<and> list_all is_version_char v
        \<and> list_all (\<lambda>c. \<not> is_version_char c \<and> c \<noteq> CHR 0x0A) pre
        \<and> (post = [] \<or> \<not> is_version_char (hd post))"
proof (induction s)
  case Nil
  then show ?case by simp
next
  case (Cons c cs)
  show ?case
  proof (cases "is_version_char c")
    case True
    with Cons.prems have v: "v = takeWhile is_version_char (c # cs)" by simp
    let ?post = "dropWhile is_version_char (c # cs)"
    have "c # cs = [] @ v @ ?post" using v by simp
    moreover have "v \<noteq> []" using v True by simp
    moreover have "list_all is_version_char v"
      unfolding v list_all_iff using set_takeWhileD by fastforce
    moreover have "?post = [] \<or> \<not> is_version_char (hd ?post)"
      using hd_dropWhile [of is_version_char "c # cs"] by blast
    moreover have "list_all (\<lambda>c. \<not> is_version_char c \<and> c \<noteq> CHR 0x0A) []" by simp
    ultimately show ?thesis by blast
  next
    case False
    with Cons.prems have nl: "c \<noteq> CHR 0x0A" and r: "re_match_version cs = Some v"
      by (auto split: if_splits)
    from Cons.IH [OF r] obtain pre post where
      p: "cs = pre @ v @ post" "v \<noteq> []" "list_all is_version_char v"
         "list_all (\<lambda>c. \<not> is_version_char c \<and> c \<noteq> CHR 0x0A) pre"
         "post = [] \<or> \<not> is_version_char (hd post)"
      by blast
    have "c # cs = (c # pre) @ v @ post" using p(1) by simp
    moreover have "list_all (\<lambda>c. \<not> is_version_char c \<and> c \<noteq> CHR 0x0A) (c # pre)"
      using False nl p(4) by simp
    ultimately show ?thesis using p(2,3,5) by blast
  qed
qed

lemma newline_not_version_char: "\<not> is_version_char (CHR 0x0A)"
  by (simp add: is_version_char_def)

lemma re_match_version_None:
  "re_match_version s = None \<longleftrightarrow>
     (\<forall>c \<in> set (takeWhile (\<lambda>c. c \<noteq> CHR 0x0A) s). \<not> is_version_char c)"
  using newline_not_version_char by (induction s) auto

lemma scan_keys_spec: "scan_keys V (map Some texts) = Inr (resolver_spec V texts)"
  by (induction texts)
     (simp_all add: resolver_spec_def py_find_zero hd_py_split get_major_version_takeWhile)


section \<open>Lemmas on the stages of a run\<close>

lemma check_version_returns: "\<exists>b. check_version h s binary required_version = Inr b"
  by (auto simp: check_version_def is_Exception_def split: sum.splits)

lemma get_matched_snd:
  "snd (get_matched_chromedriver_version h s V n) = s\<lparr>requests := requests s @ [index_url n]\<rparr>"
  by (auto simp: get_matched_chromedriver_version_def urlopen_def Let_def
           split: reply.splits payload.splits prod.splits sum.splits)

lemma owner_x_744: "owner_x 484 \<and> owner_rwx 484"
  by (simp add: owner_x_def owner_rwx_def bit_iff_odd)

lemma make_executable_frame:
  "make_executable s p = Inr s' \<Longrightarrow> environ s' = environ s \<and> requests s' = requests s"
  by (auto simp: make_executable_def chmod_def split: if_splits option.splits node.splits)

lemma make_executable_mode:
  "make_executable s p = Inr s' \<Longrightarrow> fs s p = Some (File m c) \<Longrightarrow>
     fs s' p = Some (File (if owner_x m then m else 484) c)"
  by (auto simp: make_executable_def chmod_def access_x_def split: if_splits)

lemma fetch_environ:
  "environ (snd (fetch_and_unpack h s d f v n)) = environ s"
  by (auto simp: fetch_and_unpack_def makedirs_def urlopen_def zip_extract_def Let_def
           split: if_splits option.splits node.splits sum.splits prod.splits reply.splits
                  payload.splits)

lemma fetch_requests:
  "fetch_and_unpack h s d f v n = (r, s') \<Longrightarrow>
     requests s' = requests s
     \<or> (\<exists>url. get_chromedriver_url h v n = Inr url \<and> requests s' = requests s @ [url])"
  by (auto simp: fetch_and_unpack_def makedirs_def urlopen_def zip_extract_def Let_def
           split: if_splits option.splits node.splits sum.splits prod.splits reply.splits
                  payload.splits)

lemma fetch_failed_reply:
  "fetch_and_unpack h s d f v n = (r, s') \<Longrightarrow> get_chromedriver_url h v n = Inr url \<Longrightarrow>
   requests s' = requests s @ [url] \<Longrightarrow> \<forall>body. net h url \<noteq> Http 200 body \<Longrightarrow>
     r = Inl (RuntimeError (''Failed to download chromedriver archive: '' @ url))
     \<and> (fs s' = fs s \<or> (fs s d = None \<and> fs s' = (fs s)(d \<mapsto> Dir)))"
  by (auto simp: fetch_and_unpack_def makedirs_def urlopen_def zip_extract_def Let_def
                 is_URLError_def
           split: if_splits option.splits node.splits sum.splits prod.splits reply.splits
                  payload.splits)

lemma fetch_success:
  "fetch_and_unpack h s d f v n = (Inr u, s') \<Longrightarrow>
     \<exists>c. fs s' (path_join h d f) = Some (File (pre_mode h s (path_join h d f)) c)"
  by (auto simp: fetch_and_unpack_def makedirs_def urlopen_def zip_extract_def Let_def
                 pre_mode_def isdir_def
           split: if_splits option.splits node.splits sum.splits prod.splits reply.splits
                  payload.splits)



lemma download_chromedriver_cases [consumes 1, case_names no_browser no_match present fetched]:
  assumes run: "download_chromedriver h s path n = (r, s')"
  obtains
    (no_browser) "s' = s" "\<forall>fp. r \<noteq> Inr (Some fp)"
  | (no_match) "s' = s\<lparr>requests := requests s @ [index_url n]\<rparr>" "\<forall>fp. r \<noteq> Inr (Some fp)"
  | (present) v dir where
      "isfile (s\<lparr>requests := requests s @ [index_url n]\<rparr>) (path_join h dir (get_chromedriver_filename h))"
      "check_version h (s\<lparr>requests := requests s @ [index_url n]\<rparr>)
         (path_join h dir (get_chromedriver_filename h)) v = Inr True"
      "(\<exists>e. r = Inl e \<and> s' = s\<lparr>requests := requests s @ [index_url n]\<rparr>)
       \<or> (r = Inr (Some (path_join h dir (get_chromedriver_filename h)))
           \<and> make_executable (s\<lparr>requests := requests s @ [index_url n]\<rparr>)
                (path_join h dir (get_chromedriver_filename h)) = Inr s')"
  | (fetched) v dir r2 s2 where
      "fetch_and_unpack h (s\<lparr>requests := requests s @ [index_url n]\<rparr>) dir
         (get_chromedriver_filename h) v n = (r2, s2)"
      "(\<exists>e. r2 = Inl e \<and> r = Inl e \<and> s' = s2)
       \<or> (\<exists>e. r2 = Inr () \<and> r = Inl e \<and> s' = s2)
       \<or> (r2 = Inr () \<and> r = Inr (Some (path_join h dir (get_chromedriver_filename h)))
           \<and> make_executable s2 (path_join h dir (get_chromedriver_filename h)) = Inr s')"
proof -
  let ?s1 = "s\<lparr>requests := requests s @ [index_url n]\<rparr>"
  show thesis
  proof (cases "get_chrome_version h s")
    case (Inl e)
    with run have "s' = s" "r = Inl e" by (auto simp: download_chromedriver_def)
    then show thesis using no_browser by simp
  next
    case cv: (Inr cv)
    show thesis
    proof (cases "cv = None \<or> cv = Some []")
      case True
      with run cv have "s' = s" "r = Inr None" by (auto simp: download_chromedriver_def)
      then show thesis using no_browser by simp
    next
      case False
      then obtain V where V: "cv = Some V" "V \<noteq> []" by (cases cv) auto
      obtain r1 s1 where m0: "get_matched_chromedriver_version h s V n = (r1, s1)" by force
      with get_matched_snd [of h s V n] have m: "get_matched_chromedriver_version h s V n = (r1, ?s1)"
        by simp
      show thesis
      proof (cases r1)
        case (Inl e)
        with run cv V m have "r = Inl e" "s' = ?s1" by (auto simp: download_chromedriver_def)
        then show thesis using no_match by simp
      next
        case r1: (Inr matched)
        show thesis
        proof (cases "matched = None \<or> matched = Some []")
          case True
          with run cv V m r1 have "r = Inr None" "s' = ?s1" by (auto simp: download_chromedriver_def)
          then show thesis using no_match by simp
        next
          case False
          then obtain v where v: "matched = Some v" "v \<noteq> []" by (cases matched) auto
          show thesis
          proof (cases "chromedriver_directory h ?s1 path (get_major_version v)")
            case (Inl e)
            with run cv V m r1 v have "r = Inl e" "s' = ?s1"
              by (auto simp: download_chromedriver_def)
            then show thesis using no_match by simp
          next
            case dir: (Inr dir)
            let ?fp = "path_join h dir (get_chromedriver_filename h)"
            obtain b where b: "check_version h ?s1 ?fp v = Inr b"
              using check_version_returns by blast
            show thesis
            proof (cases "isfile ?s1 ?fp \<and> b")
              case True
              then have A: "isfile ?s1 ?fp" and B: "check_version h ?s1 ?fp v = Inr True"
                using b by simp_all
              have st: "(if \<not> isfile ?s1 ?fp then Inr True
                         else map_sum id Not (check_version h ?s1 ?fp v)) = Inr False"
                using True b by simp
              from run cv V m r1 v dir st
              have C: "(\<exists>e. r = Inl e \<and> s' = ?s1) \<or> (r = Inr (Some ?fp) \<and> make_executable ?s1 ?fp = Inr s')"
                by (auto simp: download_chromedriver_def Let_def split: sum.splits)
              show thesis by (rule present [OF A B C])
            next
              case False
              obtain r2 s2 where f: "fetch_and_unpack h ?s1 dir (get_chromedriver_filename h) v n = (r2, s2)"
                by force
              have st: "(if \<not> isfile ?s1 ?fp then Inr True
                         else map_sum id Not (check_version h ?s1 ?fp v)) = Inr True"
                using False b by auto
              from f run cv V m r1 v dir st
              have C: "(\<exists>e. r2 = Inl e \<and> r = Inl e \<and> s' = s2)
                    \<or> (\<exists>e. r2 = Inr () \<and> r = Inl e \<and> s' = s2)
                    \<or> (r2 = Inr () \<and> r = Inr (Some ?fp) \<and> make_executable s2 ?fp = Inr s')"
                by (auto simp: download_chromedriver_def Let_def split: sum.splits)
              show thesis by (rule fetched [OF f C])
            qed
          qed
        qed
      qed
    qed
  qed
qed


lemma download_environ:
  "environ (snd (download_chromedriver h s path n)) = environ s"
proof -
  obtain r s' where run: "download_chromedriver h s path n = (r, s')" by force
  from run have "environ s' = environ s"
  proof (cases rule: download_chromedriver_cases)
    case (fetched v dir r2 s2)
    from fetch_environ [of h "s\<lparr>requests := requests s @ [index_url n]\<rparr>" dir "get_chromedriver_filename h" v n]
      fetched(1)
    have "environ s2 = environ s" by simp
    with fetched(2) show ?thesis by (auto dest: make_executable_frame)
  qed (auto dest: make_executable_frame)
  with run show ?thesis by simp
qed

lemma archive_url_not_index: "get_chromedriver_url h v n = Inr url \<Longrightarrow> url \<noteq> index_url n"
  by (auto simp: get_chromedriver_url_def index_url_def split: sum.splits if_splits)

lemma download_archive_failure:
  assumes run: "download_chromedriver h s path n = (r, s')"
    and asked: "url \<in> set (new_requests s s')"
    and other: "url \<noteq> index_url n"
    and bad: "\<forall>body. net h url \<noteq> Http 200 body"
  shows "r = Inl (RuntimeError (''Failed to download chromedriver archive: '' @ url))"
    and "new_requests s s' = [index_url n, url]"
    and "\<exists>v. get_chromedriver_url h v n = Inr url"
    and "\<exists>d. fs s' = fs s \<or> (fs s d = None \<and> fs s' = (fs s)(d \<mapsto> Dir))"
    and "environ s' = environ s"
proof -
  let ?s1 = "s\<lparr>requests := requests s @ [index_url n]\<rparr>"
  from run have
    "r = Inl (RuntimeError (''Failed to download chromedriver archive: '' @ url))
     \<and> new_requests s s' = [index_url n, url]
     \<and> (\<exists>v. get_chromedriver_url h v n = Inr url)
     \<and> (\<exists>d. fs s' = fs s \<or> (fs s d = None \<and> fs s' = (fs s)(d \<mapsto> Dir)))"
  proof (cases rule: download_chromedriver_cases)
    case no_browser
    with asked show ?thesis by (simp add: new_requests_def)
  next
    case no_match
    with asked other show ?thesis by (simp add: new_requests_def)
  next
    case (present v dir)
    with asked other show ?thesis by (auto simp: new_requests_def dest: make_executable_frame)
  next
    case (fetched v dir r2 s2)
    from fetched(2) have rq: "requests s' = requests s2"
      by (auto dest: make_executable_frame)
    from fetch_requests [OF fetched(1)] asked other rq
    have u: "get_chromedriver_url h v n = Inr url" "requests s2 = requests ?s1 @ [url]"
      by (auto simp: new_requests_def)
    from fetch_failed_reply [OF fetched(1) u bad]
    have f: "r2 = Inl (RuntimeError (''Failed to download chromedriver archive: '' @ url))"
        "fs s2 = fs s \<or> (fs s dir = None \<and> fs s2 = (fs s)(dir \<mapsto> Dir))"
      by simp_all
    with fetched(2)
    have "r = Inl (RuntimeError (''Failed to download chromedriver archive: '' @ url))" "s' = s2"
      by auto
    with f u show ?thesis by (auto simp: new_requests_def)
  qed
  then show "r = Inl (RuntimeError (''Failed to download chromedriver archive: '' @ url))"
    and "new_requests s s' = [index_url n, url]"
    and "\<exists>v. get_chromedriver_url h v n = Inr url"
    and "\<exists>d. fs s' = fs s \<or> (fs s d = None \<and> fs s' = (fs s)(d \<mapsto> Dir))"
    by simp_all
  from download_environ [of h s path n] run show "environ s' = environ s" by simp
qed

lemma download_success_mode:
  assumes run: "download_chromedriver h s path n = (Inr (Some fp), s')"
  shows "\<exists>c. fs s' fp = Some (File (if owner_x (pre_mode h s fp) then pre_mode h s fp else 484) c)"
  using run
proof (cases rule: download_chromedriver_cases)
  case (present v dir)
  let ?s1 = "s\<lparr>requests := requests s @ [index_url n]\<rparr>"
  from present(1) obtain m c where "fs ?s1 fp = Some (File m c)"
    using present(3) by (auto simp: isfile_def split: option.splits node.splits)
  with present(3) make_executable_mode [of ?s1 fp s' m c] show ?thesis
    by (auto simp: pre_mode_def)
next
  case (fetched v dir r2 s2)
  let ?s1 = "s\<lparr>requests := requests s @ [index_url n]\<rparr>"
  from fetched(2) have ok: "r2 = Inr ()" "fp = path_join h dir (get_chromedriver_filename h)"
     "make_executable s2 fp = Inr s'" by auto
  from fetch_success [of h ?s1 dir "get_chromedriver_filename h" v n "()" s2] fetched(1) ok
  obtain c where "fs s2 fp = Some (File (pre_mode h ?s1 fp) c)" by auto
  with make_executable_mode [OF ok(3) this] show ?thesis by (auto simp: pre_mode_def)
qed auto


section \<open>The claims\<close>

text \<open>
  Claim C1. For every installed version and every index whose keys carry text, the
  Remote Version Resolver returns the leading path segment of the first key, in index
  order, that starts with the major version followed by a dot, and nothing when no key
  does: a linear scan in which the first match wins.
\<close>

theorem resolver_returns_first_match:
  assumes "net h (index_url no_ssl) = Http code (Xml (map Some texts))"
    and "200 \<le> code" and "code < 300"
  shows "fst (get_matched_chromedriver_version h s V no_ssl) = Inr (resolver_spec V texts)"
  using assms by (simp add: get_matched_chromedriver_version_def urlopen_def scan_keys_spec)

theorem resolver_returns_first_match_witness:
  "fst (get_matched_chromedriver_version example_host example_state ''114.0.5735.90'' False)
     = Inr (Some ''114.0.5735.16'')"
proof -
  have n: "net example_host (index_url False) = Http 200 (Xml (map Some example_index))"
    by (simp add: example_host_def index_url_def)
  have r: "resolver_spec ''114.0.5735.90'' example_index = Some ''114.0.5735.16''"
    by (simp add: resolver_spec_def example_index_def startswith_def)
  show ?thesis
    using resolver_returns_first_match [OF n, of example_state "''114.0.5735.90''"] r by simp
qed



text \<open>
  Claim C3. When the Installed-Version Reader yields the absence signal (no version, or
  an empty one), \<open>download_chromedriver\<close> and \<open>install\<close> return the absence signal and
  leave the state as it was: no network request is made.
\<close>

theorem absent_browser_makes_no_request:
  assumes "get_chrome_version h s = Inr v" and "v = None \<or> v = Some []"
  shows "download_chromedriver h s path no_ssl = (Inr None, s)
         \<and> install h s cwd path no_ssl = (Inr None, s)
         \<and> new_requests s (snd (install h s cwd path no_ssl)) = []"
proof -
  have d: "\<And>p. download_chromedriver h s p no_ssl = (Inr None, s)"
    using assms by (auto simp: download_chromedriver_def)
  then show ?thesis by (simp add: install_def new_requests_def)
qed

theorem absent_browser_makes_no_request_witness:
  "get_chrome_version silent_host example_state = Inr (Some [])
   \<and> install silent_host example_state False None False = (Inr None, example_state)
   \<and> new_requests example_state (snd (install silent_host example_state False None False)) = []"
proof -
  have v: "get_chrome_version silent_host example_state = Inr (Some [])"
    by code_simp
  show ?thesis
    using absent_browser_makes_no_request
            [OF v, of None False False] v
    by (simp add: new_requests_def)
qed

text \<open>
  Claim C4, as amended. The Environment Installer step is idempotent: a second call with
  the same directory changes nothing. After a call the directory occurs in the search
  path: the path is the directory when it was unset, the directory, the separator and the
  old value when the directory did not occur in the old value, and the old value itself
  when the directory occurred in it (as a substring; occurrences already there are
  neither removed nor counted). When the path was unset or did not contain the directory,
  and the directory does not contain the separator, exactly one entry of the resulting
  path is the directory.
\<close>

theorem environment_installer_idempotent:
  "environment_installer h (environment_installer h s d) d = environment_installer h s d
   \<and> (\<exists>v. environ (environment_installer h s d) ''PATH'' = Some v \<and> py_in d v)
   \<and> (environ s ''PATH'' = None \<longrightarrow> environ (environment_installer h s d) ''PATH'' = Some d)
   \<and> (\<forall>old. environ s ''PATH'' = Some old \<and> \<not> py_in d old \<longrightarrow>
         environ (environment_installer h s d) ''PATH'' = Some (d @ get_variable_separator h @ old))
   \<and> (\<forall>old. environ s ''PATH'' = Some old \<and> py_in d old \<longrightarrow> environment_installer h s d = s)
   \<and> ((environ s ''PATH'' = None \<or> (\<exists>old. environ s ''PATH'' = Some old \<and> \<not> py_in d old))
        \<and> hd (get_variable_separator h) \<notin> set d \<longrightarrow>
        (\<exists>v. environ (environment_installer h s d) ''PATH'' = Some v
              \<and> count_list (path_entries h v) d = 1))"
proof -
  have self: "py_in d d" using py_in_prepend [of d "[]"] by simp
  have pre: "\<And>r. py_in d (d @ r)" by (rule py_in_prepend)
  have one: "hd (get_variable_separator h) \<notin> set d \<Longrightarrow> count_list (path_entries h d) d = 1"
    by (simp add: path_entries_def py_split_no_sep)
  show ?thesis
  proof (cases "environ s ''PATH''")
    case None
    then show ?thesis using self one by (simp add: environment_installer_def)
  next
    case (Some old)
    show ?thesis
    proof (cases "py_in d old")
      case True
      with Some show ?thesis by (simp add: environment_installer_def)
    next
      case False
      with Some show ?thesis using pre count_prepended [of h d old]
        by (simp add: environment_installer_def)
    qed
  qed
qed

theorem environment_installer_idempotent_witness:
  "environ (environment_installer example_host
              (environment_installer example_host example_state ''/pkg/114'') ''/pkg/114'') ''PATH''
     = Some ''/pkg/114:/usr/bin''
   \<and> count_list (path_entries example_host ''/pkg/114:/usr/bin'') ''/pkg/114'' = 1"
proof -
  have p: "environ example_state ''PATH'' = Some ''/usr/bin''"
    by (simp add: example_state_def)
  have a: "\<not> py_in ''/pkg/114'' ''/usr/bin''"
    by code_simp
  have c: "hd (get_variable_separator example_host) \<notin> set ''/pkg/114''"
    by code_simp
  have g: "get_variable_separator example_host = '':''"
    by code_simp
  show ?thesis
    using environment_installer_idempotent [of example_host example_state "''/pkg/114''"] p a c g
    by auto
qed

theorem environment_installer_keeps_duplicates:
  "environ (environment_installer example_host
              (environment_installer example_host duplicated_state ''/d'') ''/d'') ''PATH''
     = Some ''/d:/d''
   \<and> count_list (path_entries example_host ''/d:/d'') ''/d'' = 2
   \<and> count_occurrences ''/d'' ''/d:/d'' = 2"
  by code_simp

text \<open>
  Claim C5. On a supported system (64-bit Linux, Mac, Windows) the Platform Detector
  returns one of the three pairs linux/64, mac/64 and win/32, each system its own; on
  every other system it raises the runtime error, with no fallback.
\<close>

theorem platform_detector_closed_set:
  "(supported_platform h \<longrightarrow>
      get_platform_architecture h \<in> Inr ` {(''linux'', ''64''), (''mac'', ''64''), (''win'', ''32'')})
   \<and> (\<not> supported_platform h \<longrightarrow>
      get_platform_architecture h
        = Inl (RuntimeError ''Could not determine chromedriver download URL for this platform.''))
   \<and> (startswith (sys_platform h) ''linux'' \<and> sys_maxsize h > 2 ^ 32 \<longrightarrow>
      get_platform_architecture h = Inr (''linux'', ''64''))
   \<and> (sys_platform h = ''darwin'' \<longrightarrow> get_platform_architecture h = Inr (''mac'', ''64''))
   \<and> (startswith (sys_platform h) ''win'' \<longrightarrow> get_platform_architecture h = Inr (''win'', ''32''))"
  using linux_not_win [of "sys_platform h"] darwin_not_prefixed
  by (auto simp: supported_platform_def get_platform_architecture_def)

theorem platform_detector_closed_set_witness:
  "supported_platform example_host
   \<and> get_platform_architecture example_host = Inr (''linux'', ''64'')
   \<and> \<not> supported_platform (example_host\<lparr>sys_platform := ''cygwin''\<rparr>)
   \<and> get_platform_architecture (example_host\<lparr>sys_platform := ''cygwin''\<rparr>)
       = Inl (RuntimeError ''Could not determine chromedriver download URL for this platform.'')"
proof -
  have a: "supported_platform example_host"
    by code_simp
  have l: "startswith (sys_platform example_host) ''linux'' \<and> sys_maxsize example_host > 2 ^ 32"
    by code_simp
  have b: "\<not> supported_platform (example_host\<lparr>sys_platform := ''cygwin''\<rparr>)"
    by code_simp
  show ?thesis
    using platform_detector_closed_set [of example_host]
          platform_detector_closed_set [of "example_host\<lparr>sys_platform := ''cygwin''\<rparr>"] a l b
    by simp
qed



text \<open>
  Claim C7. In every run that requests an archive URL to which the reply has a status
  other than 200, \<open>download_chromedriver\<close> raises the runtime error, and afterwards the
  files on disk are the files that were there before, with their modes and contents:
  nothing that existed is changed or removed, and the only entry the run can have added
  is an empty directory.
\<close>

theorem archive_failure_leaves_files_untouched:
  assumes "url \<in> set (new_requests s (snd (download_chromedriver h s path no_ssl)))"
    and "url \<noteq> index_url no_ssl"
    and "net h url = Http code body" and "code \<noteq> 200"
  shows "fst (download_chromedriver h s path no_ssl)
           = Inl (RuntimeError (''Failed to download chromedriver archive: '' @ url))
         \<and> (\<forall>p m c. (fs (snd (download_chromedriver h s path no_ssl)) p = Some (File m c))
                      = (fs s p = Some (File m c)))
         \<and> (\<forall>p. fs s p \<noteq> None \<longrightarrow> fs (snd (download_chromedriver h s path no_ssl)) p = fs s p)
         \<and> (\<forall>p. fs s p = None \<longrightarrow>
                  fs (snd (download_chromedriver h s path no_ssl)) p = None
                  \<or> fs (snd (download_chromedriver h s path no_ssl)) p = Some Dir)"
proof -
  obtain r s' where run: "download_chromedriver h s path no_ssl = (r, s')" by force
  with assms(1) have asked: "url \<in> set (new_requests s s')" by simp
  from assms(3,4) have bad: "\<forall>body. net h url \<noteq> Http 200 body" by simp
  from download_archive_failure(1,4) [OF run asked assms(2) bad]
  have r: "r = Inl (RuntimeError (''Failed to download chromedriver archive: '' @ url))"
    and f: "\<exists>d. fs s' = fs s \<or> (fs s d = None \<and> fs s' = (fs s)(d \<mapsto> Dir))"
    by simp_all
  from f obtain d where "fs s' = fs s \<or> (fs s d = None \<and> fs s' = (fs s)(d \<mapsto> Dir))" by blast
  then have "(\<forall>p m c. (fs s' p = Some (File m c)) = (fs s p = Some (File m c)))
             \<and> (\<forall>p. fs s p \<noteq> None \<longrightarrow> fs s' p = fs s p)
             \<and> (\<forall>p. fs s p = None \<longrightarrow> fs s' p = None \<or> fs s' p = Some Dir)"
    by (auto split: if_splits)
  with r run show ?thesis by simp
qed

theorem archive_failure_leaves_files_untouched_witness:
  "(\<exists>msg. fst (download_chromedriver missing_archive_host installed_state None False)
            = Inl (RuntimeError msg))
   \<and> fs (snd (download_chromedriver missing_archive_host installed_state None False))
        ''/pkg/114/chromedriver'' = Some (File 493 ''driver'')"
proof -
  have a: "example_archive_url
             \<in> set (new_requests installed_state
                      (snd (download_chromedriver missing_archive_host installed_state None False)))"
    by code_simp
  have b: "example_archive_url \<noteq> index_url False"
    by code_simp
  have c: "net missing_archive_host example_archive_url = Http 404 Opaque"
    by (simp add: missing_archive_host_def example_host_def example_archive_url_def)
  have d: "(404 :: nat) \<noteq> 200" by simp
  have e: "fs installed_state ''/pkg/114/chromedriver'' = Some (File 493 ''driver'')"
    by (simp add: installed_state_def)
  show ?thesis
    using archive_failure_leaves_files_untouched [OF a b c d] e by simp
qed

text \<open>
  Claim C8. After every successful run of \<open>download_chromedriver\<close> the driver file is
  executable. When the owner's execute bit was missing before the permission step, the
  mode is set to 0o744, which holds the owner's read, write and execute bits; when the bit
  was present, the mode is left as it was.
\<close>

theorem successful_download_is_executable:
  assumes "fst (download_chromedriver h s path no_ssl) = Inr (Some fp)"
  shows "\<exists>m c. fs (snd (download_chromedriver h s path no_ssl)) fp = Some (File m c)
           \<and> owner_x m \<and> access_x (snd (download_chromedriver h s path no_ssl)) fp
           \<and> m = (if owner_x (pre_mode h s fp) then pre_mode h s fp else 484)
           \<and> (\<not> owner_x (pre_mode h s fp) \<longrightarrow> owner_rwx m)"
proof -
  obtain r s' where run0: "download_chromedriver h s path no_ssl = (r, s')" by force
  with assms have run: "download_chromedriver h s path no_ssl = (Inr (Some fp), s')" by simp
  from download_success_mode [OF run] obtain c where
    "fs s' fp = Some (File (if owner_x (pre_mode h s fp) then pre_mode h s fp else 484) c)"
    by blast
  with run show ?thesis using owner_x_744 by (auto simp: access_x_def)
qed

theorem successful_download_is_executable_witness:
  "fst (download_chromedriver example_host example_state None False)
     = Inr (Some ''/pkg/114/chromedriver'')
   \<and> access_x (snd (download_chromedriver example_host example_state None False))
        ''/pkg/114/chromedriver''
   \<and> \<not> owner_x (pre_mode example_host example_state ''/pkg/114/chromedriver'')"
proof -
  have a: "fst (download_chromedriver example_host example_state None False)
             = Inr (Some ''/pkg/114/chromedriver'')"
    by code_simp
  have b: "\<not> owner_x (pre_mode example_host example_state ''/pkg/114/chromedriver'')"
    by code_simp
  show ?thesis
    using successful_download_is_executable [OF a] a b by auto
qed



text \<open>
  Claim C10. Whenever \<open>download_chromedriver\<close> yields the absence signal, \<open>install\<close>
  returns the absence signal and the process environment, \<open>PATH\<close> included, is what it
  was before the call.
\<close>

theorem soft_failure_leaves_environment:
  assumes "fst (download_chromedriver h s (if cwd then Some (getcwd h) else path) no_ssl) = Inr None"
  shows "fst (install h s cwd path no_ssl) = Inr None
         \<and> environ (snd (install h s cwd path no_ssl)) = environ s
         \<and> environ (snd (install h s cwd path no_ssl)) ''PATH'' = environ s ''PATH''"
proof -
  let ?d = "download_chromedriver h s (if cwd then Some (getcwd h) else path) no_ssl"
  obtain s' where d: "?d = (Inr None, s')" using assms by (cases ?d) auto
  with download_environ [of h s "if cwd then Some (getcwd h) else path" no_ssl]
  have "environ s' = environ s" by simp
  with d show ?thesis by (simp add: install_def)
qed

theorem soft_failure_leaves_environment_witness:
  "fst (install unmatched_host example_state False None False) = Inr None
   \<and> environ (snd (install unmatched_host example_state False None False)) ''PATH''
       = Some ''/usr/bin''"
proof -
  have a: "fst (download_chromedriver unmatched_host example_state
                  (if False then Some (getcwd unmatched_host) else None) False) = Inr None"
    by code_simp
  have p: "environ example_state ''PATH'' = Some ''/usr/bin''"
    by (simp add: example_state_def)
  show ?thesis
    using soft_failure_leaves_environment [OF a] p by simp
qed

text \<open>
  Extra X1. On 64-bit Linux with none of the six browser executables on the search path,
  \<open>download_chromedriver\<close> and \<open>install\<close> raise the ValueError of
  \<open>get_linux_executable_path\<close>: the missing browser is an error there, not the absence
  signal, and no network request is made.
\<close>

theorem missing_linux_browser_raises:
  assumes "startswith (sys_platform h) ''linux''" and "2 ^ 32 < sys_maxsize h"
    and "list_all (\<lambda>name. which h name = None)
           [''google-chrome'', ''google-chrome-stable'', ''google-chrome-beta'',
            ''google-chrome-dev'', ''chromium-browser'', ''chromium'']"
  shows "download_chromedriver h s path no_ssl
           = (Inl (ValueError ''No chrome executable found on PATH''), s)
         \<and> install h s cwd path no_ssl
           = (Inl (ValueError ''No chrome executable found on PATH''), s)"
proof -
  have v: "get_chrome_version h s = Inl (ValueError ''No chrome executable found on PATH'')"
    using assms
    by (simp add: get_chrome_version_def get_platform_architecture_def
                  get_linux_executable_path_def)
  then have "\<And>p. download_chromedriver h s p no_ssl
                  = (Inl (ValueError ''No chrome executable found on PATH''), s)"
    by (simp add: download_chromedriver_def)
  then show ?thesis by (simp add: install_def)
qed

theorem missing_linux_browser_raises_witness:
  "install (example_host\<lparr>which := (\<lambda>name. None)\<rparr>) example_state False None False
     = (Inl (ValueError ''No chrome executable found on PATH''), example_state)"
proof -
  have a: "startswith (sys_platform (example_host\<lparr>which := (\<lambda>name. None)\<rparr>)) ''linux''"
    by (simp add: example_host_def startswith_def)
  have b: "2 ^ 32 < sys_maxsize (example_host\<lparr>which := (\<lambda>name. None)\<rparr>)"
    by (simp add: example_host_def)
  have c: "list_all (\<lambda>name. which (example_host\<lparr>which := (\<lambda>name. None)\<rparr>) name = None)
             [''google-chrome'', ''google-chrome-stable'', ''google-chrome-beta'',
              ''google-chrome-dev'', ''chromium-browser'', ''chromium'']"
    by simp
  show ?thesis
    using missing_linux_browser_raises [OF a b c, of example_state None False False] by simp
qed

end
